theory Spec2Isabelle
  imports Main
begin

section \<open>Active-learning notebook: data model\<close>

text \<open>
  The repository is a Jupyter notebook (in two near-identical copies). Its cells share
  global names; the function \<^verbatim>\<open>run_active_learning\<close> reads several of them
  instead of its parameters. The model keeps the globals in one record that every cell
  and function takes and returns.

  Exceptions are values: \<open>ValueError\<close> is what \<^verbatim>\<open>np.random.choice\<close> raises
  when the sample is larger than the population, \<open>IndexError\<close> is what numpy's
  index-array lookup \<^verbatim>\<open>a[idx_list]\<close> raises for an index beyond the array.
\<close>

datatype error = ValueError | IndexError

text \<open>
  One row of the data frame \<^verbatim>\<open>df\<close> after the fingerprint column has been added:
  the fingerprint (of an arbitrary type \<open>'x\<close>, computed by an external library) and the
  label read from the column \<^verbatim>\<open>y\<close> of the CSV file.
\<close>

record 'x molecule =
  mol_fp :: 'x
  mol_y :: int

type_synonym 'x frame = "'x molecule list"

definition df_y_values :: "'x frame \<Rightarrow> int list" where
  "df_y_values d = map mol_y d"

definition df_fp_values :: "'x frame \<Rightarrow> 'x list" where
  "df_fp_values d = map mol_fp d"

text \<open>
  \<^verbatim>\<open>a[idx_list]\<close> for a numpy array and an array of indices. The indices of the
  notebook come from \<^verbatim>\<open>np.random.choice(range(n))\<close> and from the learner's query,
  which are never negative, so an index is a \<open>nat\<close>; an index that is not below the
  length raises.
\<close>

definition np_index :: "'a list \<Rightarrow> nat list \<Rightarrow> error + 'a list" where
  "np_index a idx_list =
     (if \<forall>i \<in> set idx_list. i < length a then Inr (map (\<lambda>i. a ! i) idx_list)
      else Inl IndexError)"

text \<open>
  The calls that leave the notebook's own code for the learner and the oracle, in the
  order they happen. The list \<open>calls\<close> of the state below is not a Python name: it
  records the arguments of each call so that properties about what was passed to the
  learner can be stated.
\<close>

datatype 'x call =
    Fit "'x list" "int list"
  | Query "'x list" nat "nat list"
  | Lookup "nat list" "int list"
  | Teach "'x list" "int list"

text \<open>
  The global names of the notebook that the later cells read, and the state of numpy's
  global random generator (of an arbitrary type \<open>'g\<close>).
\<close>

record ('x, 'g) notebook =
  df :: "'x frame"
  X_pool :: "'x list"
  y_pool :: "int list"
  n_initial :: nat
  initial_list :: "nat list"
  X_training :: "'x list"
  y_training :: "int list"
  n_instances :: nat
  rng :: 'g
  calls :: "'x call list"

text \<open>
  The libraries the notebook calls, as parameters: the raw output of numpy's global
  generator, and the three operations of modAL's \<^verbatim>\<open>ActiveLearner\<close> wrapped around
  a \<^verbatim>\<open>RandomForestClassifier()\<close> (which draws from the same global generator,
  so each operation takes and returns the generator state). \<^verbatim>\<open>learner.query\<close>
  returns the pair \<^verbatim>\<open>(query_idx, query_inst)\<close>; the notebook only uses the indices.
  The operations of the learner are taken to return: the spec expects no exception
  from them on well-formed inputs. \<open>seed_state\<close> is the generator state that
  \<^verbatim>\<open>np.random.seed(s)\<close> installs; the notebook itself never calls it.
\<close>

record ('x, 'm, 'g) library =
  seed_state :: "nat \<Rightarrow> 'g"
  next_raw :: "'g \<Rightarrow> nat \<times> 'g"
  ActiveLearner :: "'x list \<Rightarrow> int list \<Rightarrow> 'g \<Rightarrow> 'm \<times> 'g"
  learner_query :: "'m \<Rightarrow> 'x list \<Rightarrow> nat \<Rightarrow> 'g \<Rightarrow> nat list \<times> 'g"
  learner_teach :: "'m \<Rightarrow> 'x list \<Rightarrow> int list \<Rightarrow> 'g \<Rightarrow> 'm \<times> 'g"

section \<open>Random samples\<close>

text \<open>
  Modelled from the spec: \<^verbatim>\<open>np.random.choice(range(M), size=k, replace=False)\<close> is
  numpy's code, not the repository's. The spec says that it draws \<open>k\<close> indices at random
  without replacement from \<open>[0, M)\<close>. \<open>sample_from\<close> is that draw: for each raw
  output of the generator, one element of the remaining population is drawn and
  removed.
\<close>

fun sample_from :: "('g \<Rightarrow> nat \<times> 'g) \<Rightarrow> nat list \<Rightarrow> nat \<Rightarrow> 'g \<Rightarrow> nat list \<times> 'g" where
  "sample_from nxt pop 0 g = ([], g)"
| "sample_from nxt pop (Suc k) g =
     (if pop = [] then ([], g)
      else case nxt g of (r, g1) \<Rightarrow>
        let i = r mod length pop in
        case sample_from nxt (take i pop @ drop (Suc i) pop) k g1 of
          (rest, g2) \<Rightarrow> (pop ! i # rest, g2))"

text \<open>
  Modelled from the spec: a sample larger than the population fails with an
  "insufficient population" condition (numpy's ValueError). The size is checked first,
  before the generator is used.
\<close>

definition np_random_choice ::
  "('g \<Rightarrow> nat \<times> 'g) \<Rightarrow> nat \<Rightarrow> nat \<Rightarrow> 'g \<Rightarrow> (error + nat list) \<times> 'g" where
  "np_random_choice nxt M k g =
     (if M < k then (Inl ValueError, g)
      else case sample_from nxt [0..<M] k g of (xs, g') \<Rightarrow> (Inr xs, g'))"

text \<open>
  A generator that reads its outputs from a tape, and the tapes whose \<open>j\<close>-th output
  is below \<open>M - j\<close>, the number of indices that are left at the \<open>j\<close>-th draw from
  \<open>M\<close>. They state in which sense the draw is uniform: for every list of \<open>k\<close> distinct
  indices there is exactly one such tape of length \<open>k\<close> that draws it, so outputs that
  are equally likely give samples that are equally likely.
\<close>

definition tape :: "nat list \<Rightarrow> nat \<times> nat list" where
  "tape g = (case g of [] \<Rightarrow> (0, []) | r # rs \<Rightarrow> (r, rs))"

definition admissible :: "nat \<Rightarrow> nat list \<Rightarrow> bool" where
  "admissible M cs \<longleftrightarrow> (\<forall>j < length cs. cs ! j < M - j)"

section \<open>The oracle\<close>

text \<open>
  \<^verbatim>\<open>
  class Oracle:
      def __init__(self, df):
          self.df = df

      def get_values(self, idx_list):
          return df.y.values[idx_list]
  \<close>
  \<^verbatim>\<open>get_values\<close> reads the global \<^verbatim>\<open>df\<close>, not \<^verbatim>\<open>self.df\<close>.
\<close>

record 'x Oracle =
  self_df :: "'x frame"

definition Oracle_init :: "'x frame \<Rightarrow> 'x Oracle" where
  "Oracle_init d = \<lparr>self_df = d\<rparr>"

definition get_values ::
  "('x, 'g) notebook \<Rightarrow> 'x Oracle \<Rightarrow> nat list \<Rightarrow> error + int list" where
  "get_values \<sigma> self idx_list = np_index (df_y_values (df \<sigma>)) idx_list"

section \<open>The cells before the trials\<close>

text \<open>
  \<^verbatim>\<open>
  X_pool = np.stack(df.fp.values)
  y_pool = df.y.values
  \<close>
\<close>

definition load_pool :: "('x, 'g) notebook \<Rightarrow> ('x, 'g) notebook" where
  "load_pool \<sigma> = \<sigma>\<lparr>X_pool := df_fp_values (df \<sigma>), y_pool := df_y_values (df \<sigma>)\<rparr>"

text \<open>
  \<^verbatim>\<open>
  n_initial = 100
  initial_list = np.random.choice(range(len(df)), size=n_initial, replace=False)
  \<close>
  The literal 100 is the parameter \<open>n\<close>.
\<close>

definition select_initial ::
  "('x, 'm, 'g) library \<Rightarrow> nat \<Rightarrow> ('x, 'g) notebook \<Rightarrow> (error + unit) \<times> ('x, 'g) notebook" where
  "select_initial E n \<sigma> =
     (let \<sigma>1 = \<sigma>\<lparr>n_initial := n\<rparr> in
      case np_random_choice (next_raw E) (length (df \<sigma>1)) (n_initial \<sigma>1) (rng \<sigma>1) of
        (Inl e, g) \<Rightarrow> (Inl e, \<sigma>1\<lparr>rng := g\<rparr>)
      | (Inr xs, g) \<Rightarrow> (Inr (), \<sigma>1\<lparr>initial_list := xs, rng := g\<rparr>))"

text \<open>
  \<^verbatim>\<open>
  X_training = X_pool[initial_list]
  y_training = y_pool[initial_list]
  \<close>
\<close>

definition select_training :: "('x, 'g) notebook \<Rightarrow> (error + unit) \<times> ('x, 'g) notebook" where
  "select_training \<sigma> =
     (case np_index (X_pool \<sigma>) (initial_list \<sigma>) of
        Inl e \<Rightarrow> (Inl e, \<sigma>)
      | Inr xt \<Rightarrow>
          let \<sigma>1 = \<sigma>\<lparr>X_training := xt\<rparr> in
          (case np_index (y_pool \<sigma>1) (initial_list \<sigma>1) of
             Inl e \<Rightarrow> (Inl e, \<sigma>1)
           | Inr yt \<Rightarrow> (Inr (), \<sigma>1\<lparr>y_training := yt\<rparr>)))"

section \<open>One cycle of active learning\<close>

text \<open>
  The four statements that the loop of the first run and the loop of
  \<^verbatim>\<open>run_active_learning\<close> share:
  \<^verbatim>\<open>
  query_idx, query_inst = learner.query(X_pool, n_instances=n_instances)
  y_new = oracle.get_values(query_idx)
  learner.teach(X_pool[query_idx], y_pool[query_idx])
  pick_list = np.append(pick_list, query_idx)
  \<close>
  \<^verbatim>\<open>y_new\<close> is not read again: the labels given to \<^verbatim>\<open>teach\<close> are looked up
  in the global \<^verbatim>\<open>y_pool\<close>.
\<close>

definition al_cycle ::
  "('x, 'm, 'g) library \<Rightarrow> 'x Oracle \<Rightarrow> 'm \<Rightarrow> nat list \<Rightarrow> ('x, 'g) notebook \<Rightarrow>
     (error + 'm \<times> nat list) \<times> ('x, 'g) notebook" where
  "al_cycle E oracle learner pick_list \<sigma> =
     (case learner_query E learner (X_pool \<sigma>) (n_instances \<sigma>) (rng \<sigma>) of
        (query_idx, g1) \<Rightarrow>
          let \<sigma>1 = \<sigma>\<lparr>rng := g1,
                       calls := calls \<sigma> @ [Query (X_pool \<sigma>) (n_instances \<sigma>) query_idx]\<rparr> in
          (case get_values \<sigma>1 oracle query_idx of
             Inl e \<Rightarrow> (Inl e, \<sigma>1)
           | Inr y_new \<Rightarrow>
               let \<sigma>2 = \<sigma>1\<lparr>calls := calls \<sigma>1 @ [Lookup query_idx y_new]\<rparr> in
               (case np_index (X_pool \<sigma>2) query_idx of
                  Inl e \<Rightarrow> (Inl e, \<sigma>2)
                | Inr xq \<Rightarrow>
                    (case np_index (y_pool \<sigma>2) query_idx of
                       Inl e \<Rightarrow> (Inl e, \<sigma>2)
                     | Inr yq \<Rightarrow>
                         (case learner_teach E learner xq yq (rng \<sigma>2) of
                            (learner', g2) \<Rightarrow>
                              (Inr (learner', pick_list @ query_idx),
                               \<sigma>2\<lparr>rng := g2, calls := calls \<sigma>2 @ [Teach xq yq]\<rparr>))))))"

section \<open>The first run, printing the hits after each cycle\<close>

text \<open>
  \<^verbatim>\<open>
  pick_list = initial_list
  n_instances = 100
  for i in range(0, 10):
      ... the cycle ...
      print(sum(y_pool[pick_list]))
  \<close>
  The literals 100 and 10 are the parameters \<open>n\<close> and \<open>cycles\<close>; the learner is the
  global \<^verbatim>\<open>learner\<close> built from \<^verbatim>\<open>X_training, y_training\<close>. The result holds
  the learner, the final \<^verbatim>\<open>pick_list\<close> and the printed numbers in order.

  \<^verbatim>\<open>sum\<close> adds numpy int64 numbers, which wrap around at \<open>2^63\<close>. Here, and in the
  baseline and the trial function below, the sum is the exact integer: it is what the
  code computes as long as it stays below \<open>2^63\<close>, which labels 0 and 1 secure for
  every selection that fits into memory. The theorems about hit counts are stated for
  such labels.
\<close>

fun print_cycles ::
  "('x, 'm, 'g) library \<Rightarrow> 'x Oracle \<Rightarrow> nat \<Rightarrow> 'm \<Rightarrow> nat list \<Rightarrow> int list \<Rightarrow>
     ('x, 'g) notebook \<Rightarrow> (error + 'm \<times> nat list \<times> int list) \<times> ('x, 'g) notebook" where
  "print_cycles E oracle 0 learner pick_list printed \<sigma> = (Inr (learner, pick_list, printed), \<sigma>)"
| "print_cycles E oracle (Suc n) learner pick_list printed \<sigma> =
     (case al_cycle E oracle learner pick_list \<sigma> of
        (Inl e, \<sigma>1) \<Rightarrow> (Inl e, \<sigma>1)
      | (Inr (learner1, pick_list1), \<sigma>1) \<Rightarrow>
          (case np_index (y_pool \<sigma>1) pick_list1 of
             Inl e \<Rightarrow> (Inl e, \<sigma>1)
           | Inr vs \<Rightarrow>
               print_cycles E oracle n learner1 pick_list1 (printed @ [sum_list vs]) \<sigma>1))"

definition first_run ::
  "('x, 'm, 'g) library \<Rightarrow> 'x Oracle \<Rightarrow> 'm \<Rightarrow> nat \<Rightarrow> nat \<Rightarrow> ('x, 'g) notebook \<Rightarrow>
     (error + 'm \<times> nat list \<times> int list) \<times> ('x, 'g) notebook" where
  "first_run E oracle learner n cycles \<sigma> =
     print_cycles E oracle cycles learner (initial_list \<sigma>) [] (\<sigma>\<lparr>n_instances := n\<rparr>)"

section \<open>The random baseline\<close>

text \<open>
  \<^verbatim>\<open>
  random_hit_count_list = []
  for i in range(0, 10):
      random_list = np.random.choice(range(len(df)), size=1000, replace=False)
      random_hit_count_list.append(sum(df.y.values[random_list]))
  \<close>
  \<open>random_trial\<close> is the body of the loop with the literal 1000 as the parameter
  \<open>k\<close>; it returns \<^verbatim>\<open>random_list\<close> beside the hit count that the loop appends.
  The hit count is the exact sum (see the first run above for numpy's int64).
\<close>

definition random_trial ::
  "('x, 'm, 'g) library \<Rightarrow> nat \<Rightarrow> ('x, 'g) notebook \<Rightarrow>
     (error + nat list \<times> int) \<times> ('x, 'g) notebook" where
  "random_trial E k \<sigma> =
     (case np_random_choice (next_raw E) (length (df \<sigma>)) k (rng \<sigma>) of
        (Inl e, g) \<Rightarrow> (Inl e, \<sigma>\<lparr>rng := g\<rparr>)
      | (Inr random_list, g) \<Rightarrow>
          (case np_index (df_y_values (df \<sigma>)) random_list of
             Inl e \<Rightarrow> (Inl e, \<sigma>\<lparr>rng := g\<rparr>)
           | Inr vs \<Rightarrow> (Inr (random_list, sum_list vs), \<sigma>\<lparr>rng := g\<rparr>)))"

fun random_trials ::
  "('x, 'm, 'g) library \<Rightarrow> nat \<Rightarrow> nat \<Rightarrow> int list \<Rightarrow> ('x, 'g) notebook \<Rightarrow>
     (error + int list) \<times> ('x, 'g) notebook" where
  "random_trials E k 0 random_hit_count_list \<sigma> = (Inr random_hit_count_list, \<sigma>)"
| "random_trials E k (Suc n) random_hit_count_list \<sigma> =
     (case random_trial E k \<sigma> of
        (Inl e, \<sigma>1) \<Rightarrow> (Inl e, \<sigma>1)
      | (Inr (random_list, hits), \<sigma>1) \<Rightarrow>
          random_trials E k n (random_hit_count_list @ [hits]) \<sigma>1)"

definition random_baseline ::
  "('x, 'm, 'g) library \<Rightarrow> ('x, 'g) notebook \<Rightarrow> (error + int list) \<times> ('x, 'g) notebook" where
  "random_baseline E \<sigma> = random_trials E 1000 10 [] \<sigma>"

section \<open>The trial function\<close>

text \<open>
  \<^verbatim>\<open>
  def run_active_learning(X, y, oracle, num_cycles=10):
      initial_list = np.random.choice(range(len(df)), size=n_initial, replace=False)
      pick_list = initial_list
      learner = ActiveLearner(
          estimator=RandomForestClassifier(),
          X_training=X_training, y_training=y_training
      )
      for i in tqdm(range(0, num_cycles)):
          ... the cycle ...
      return sum(y[pick_list])
  \<close>
  \<^verbatim>\<open>initial_list\<close> is local; \<^verbatim>\<open>df\<close>, \<^verbatim>\<open>n_initial\<close>, \<^verbatim>\<open>X_training\<close>,
  \<^verbatim>\<open>y_training\<close>, \<^verbatim>\<open>X_pool\<close>, \<^verbatim>\<open>y_pool\<close> and \<^verbatim>\<open>n_instances\<close> are the
  globals. The parameter \<^verbatim>\<open>X\<close> is never read, \<^verbatim>\<open>y\<close> only by the last line.
  \<open>al_selection\<close> is the body up to the end of the loop and returns \<^verbatim>\<open>pick_list\<close>;
  \<open>run_active_learning\<close> adds the \<^verbatim>\<open>return\<close>, with the exact sum (see the first
  run above for numpy's int64). \<^verbatim>\<open>tqdm\<close> only draws a progress bar.
\<close>

fun al_cycles ::
  "('x, 'm, 'g) library \<Rightarrow> 'x Oracle \<Rightarrow> nat \<Rightarrow> 'm \<Rightarrow> nat list \<Rightarrow> ('x, 'g) notebook \<Rightarrow>
     (error + 'm \<times> nat list) \<times> ('x, 'g) notebook" where
  "al_cycles E oracle 0 learner pick_list \<sigma> = (Inr (learner, pick_list), \<sigma>)"
| "al_cycles E oracle (Suc n) learner pick_list \<sigma> =
     (case al_cycle E oracle learner pick_list \<sigma> of
        (Inl e, \<sigma>1) \<Rightarrow> (Inl e, \<sigma>1)
      | (Inr (learner1, pick_list1), \<sigma>1) \<Rightarrow> al_cycles E oracle n learner1 pick_list1 \<sigma>1)"

definition al_selection ::
  "('x, 'm, 'g) library \<Rightarrow> 'x Oracle \<Rightarrow> nat \<Rightarrow> ('x, 'g) notebook \<Rightarrow>
     (error + nat list) \<times> ('x, 'g) notebook" where
  "al_selection E oracle num_cycles \<sigma> =
     (case np_random_choice (next_raw E) (length (df \<sigma>)) (n_initial \<sigma>) (rng \<sigma>) of
        (Inl e, g) \<Rightarrow> (Inl e, \<sigma>\<lparr>rng := g\<rparr>)
      | (Inr initial, g) \<Rightarrow>
          (case ActiveLearner E (X_training \<sigma>) (y_training \<sigma>) g of
             (learner, g1) \<Rightarrow>
               (case al_cycles E oracle num_cycles learner initial
                       (\<sigma>\<lparr>rng := g1,
                          calls := calls \<sigma> @ [Fit (X_training \<sigma>) (y_training \<sigma>)]\<rparr>) of
                  (Inl e, \<sigma>2) \<Rightarrow> (Inl e, \<sigma>2)
                | (Inr (learner2, pick_list), \<sigma>2) \<Rightarrow> (Inr pick_list, \<sigma>2))))"

definition run_active_learning ::
  "('x, 'm, 'g) library \<Rightarrow> 'x list \<Rightarrow> int list \<Rightarrow> 'x Oracle \<Rightarrow> nat \<Rightarrow> ('x, 'g) notebook \<Rightarrow>
     (error + int) \<times> ('x, 'g) notebook" where
  "run_active_learning E X y oracle num_cycles \<sigma> =
     (case al_selection E oracle num_cycles \<sigma> of
        (Inl e, \<sigma>1) \<Rightarrow> (Inl e, \<sigma>1)
      | (Inr pick_list, \<sigma>1) \<Rightarrow>
          (case np_index y pick_list of
             Inl e \<Rightarrow> (Inl e, \<sigma>1)
           | Inr vs \<Rightarrow> (Inr (sum_list vs), \<sigma>1)))"

section \<open>A small notebook to run the definitions on\<close>

text \<open>
  Four molecules with the fingerprints 10, 11, 12, 13 and the labels 0, 1, 1, 0. The
  generator state is a counter that outputs itself, and the seed is its start; the
  learner has no state and its query returns the first \<open>k\<close> indices of the pool.
\<close>

definition demo_frame :: "nat frame" where
  "demo_frame =
     [\<lparr>mol_fp = 10, mol_y = 0\<rparr>, \<lparr>mol_fp = 11, mol_y = 1\<rparr>,
      \<lparr>mol_fp = 12, mol_y = 1\<rparr>, \<lparr>mol_fp = 13, mol_y = 0\<rparr>]"

definition demo_library :: "(nat, unit, nat) library" where
  "demo_library =
     \<lparr>seed_state = (\<lambda>s. s),
      next_raw = (\<lambda>g. (g, Suc g)),
      ActiveLearner = (\<lambda>xs ys g. ((), g)),
      learner_query = (\<lambda>m xs k g. (take k [0..<length xs], g)),
      learner_teach = (\<lambda>m xs ys g. ((), g))\<rparr>"

definition demo_start :: "(nat, nat) notebook" where
  "demo_start =
     \<lparr>df = demo_frame, X_pool = [], y_pool = [], n_initial = 0, initial_list = [],
      X_training = [], y_training = [], n_instances = 2, rng = 0, calls = []\<rparr>"

section \<open>What a run leaves in the record of calls\<close>

text \<open>
  The calls a function appended: the record of calls after it, without the part that
  was there before.
\<close>

definition new_calls :: "('x, 'g) notebook \<Rightarrow> ('x, 'g) notebook \<Rightarrow> 'x call list" where
  "new_calls \<sigma> \<sigma>' = drop (length (calls \<sigma>)) (calls \<sigma>')"

text \<open>The batches of indices the learner's queries returned, in order.\<close>

fun queried :: "'x call list \<Rightarrow> nat list list" where
  "queried [] = []"
| "queried (Query xs k q # cs) = q # queried cs"
| "queried (c # cs) = queried cs"

text \<open>
  What the spec asks of the query strategy, for a pool of \<open>M\<close> rows: the indices it
  returns are indices into the pool (\<open>query_in_range\<close>), and a batch of size \<open>k\<close> has
  exactly \<open>k\<close> of them (\<open>query_exact\<close>).
\<close>

definition query_in_range :: "('x, 'm, 'g) library \<Rightarrow> nat \<Rightarrow> bool" where
  "query_in_range E M \<longleftrightarrow>
     (\<forall>m xs k g. length xs = M \<longrightarrow> (\<forall>i \<in> set (fst (learner_query E m xs k g)). i < M))"

definition query_exact :: "('x, 'm, 'g) library \<Rightarrow> nat \<Rightarrow> nat \<Rightarrow> bool" where
  "query_exact E M k \<longleftrightarrow>
     (\<forall>m xs g. length xs = M \<longrightarrow> length (fst (learner_query E m xs k g)) = k)"

section \<open>Seeding the generator\<close>

text \<open>
  Modelled from the spec: the notebook never seeds numpy's generator. The spec's "fixed
  random seed" is \<^verbatim>\<open>np.random.seed(s)\<close>, which replaces the state of the global
  generator by one that depends on \<open>s\<close> only and touches nothing else.
\<close>

definition np_random_seed ::
  "('x, 'm, 'g) library \<Rightarrow> nat \<Rightarrow> ('x, 'g) notebook \<Rightarrow> ('x, 'g) notebook" where
  "np_random_seed E s \<sigma> = \<sigma>\<lparr>rng := seed_state E s\<rparr>"

text \<open>
  Two runs of the same function \<open>F\<close> in one session, each right after seeding with
  \<open>s\<close>: the second run starts from the state that the first one left.
\<close>

definition first_seeded ::
  "(('x, 'g) notebook \<Rightarrow> 'r \<times> ('x, 'g) notebook) \<Rightarrow> ('x, 'm, 'g) library \<Rightarrow> nat \<Rightarrow>
     ('x, 'g) notebook \<Rightarrow> 'r \<times> ('x, 'g) notebook" where
  "first_seeded F E s \<sigma> = F (np_random_seed E s \<sigma>)"

definition second_seeded ::
  "(('x, 'g) notebook \<Rightarrow> 'r \<times> ('x, 'g) notebook) \<Rightarrow> ('x, 'm, 'g) library \<Rightarrow> nat \<Rightarrow>
     ('x, 'g) notebook \<Rightarrow> 'r \<times> ('x, 'g) notebook" where
  "second_seeded F E s \<sigma> = F (np_random_seed E s (snd (first_seeded F E s \<sigma>)))"

text \<open>The calls that \<open>F\<close> appends when it is run in the state \<open>\<sigma>\<close>.\<close>

definition emitted ::
  "(('x, 'g) notebook \<Rightarrow> 'r \<times> ('x, 'g) notebook) \<Rightarrow> ('x, 'g) notebook \<Rightarrow> 'x call list" where
  "emitted F \<sigma> = new_calls \<sigma> (snd (F \<sigma>))"

text \<open>
  \<open>F\<close> reads nothing of the record of calls and changes only the generator state and the
  record of calls, to which it appends.
\<close>

definition log_free :: "(('x, 'g) notebook \<Rightarrow> 'r \<times> ('x, 'g) notebook) \<Rightarrow> ('x, 'g) notebook \<Rightarrow> bool" where
  "log_free F \<sigma> \<longleftrightarrow> (\<exists>r g c. \<forall>C. F (\<sigma>\<lparr>calls := C\<rparr>) = (r, \<sigma>\<lparr>rng := g, calls := C @ c\<rparr>))"

section \<open>The small notebook after its first cells\<close>

text \<open>
  The state of the small notebook after \<open>load_pool\<close>, \<open>select_initial\<close> with one
  initial molecule and \<open>select_training\<close>: the generator gave index 0, so the global
  training set is the molecule 0. \<open>demo_calls\<close> is what a trial of two cycles appends.
\<close>

definition demo_ready :: "(nat, nat) notebook" where
  "demo_ready =
     \<lparr>df = demo_frame, X_pool = [10, 11, 12, 13], y_pool = [0, 1, 1, 0], n_initial = 1,
      initial_list = [0], X_training = [10], y_training = [0], n_instances = 2, rng = 1,
      calls = []\<rparr>"

definition demo_calls :: "nat call list" where
  "demo_calls =
     [Fit [10] [0],
      Query [10, 11, 12, 13] 2 [0, 1], Lookup [0, 1] [0, 1], Teach [10, 11] [0, 1],
      Query [10, 11, 12, 13] 2 [0, 1], Lookup [0, 1] [0, 1], Teach [10, 11] [0, 1]]"


section \<open>Lookups and sums of labels\<close>

lemma np_index_in_range:
  "\<forall>i \<in> set idxs. i < length a \<Longrightarrow> np_index a idxs = Inr (map (\<lambda>i. a ! i) idxs)"
  by (simp add: np_index_def)

lemma np_index_append:
  "np_index a (p @ q) = Inr vs \<Longrightarrow>
     \<exists>v1 v2. np_index a p = Inr v1 \<and> np_index a q = Inr v2 \<and> vs = v1 @ v2"
  by (auto simp: np_index_def split: if_splits)

lemma sum_labels_nonneg:
  "\<forall>v \<in> set y. (0::int) \<le> v \<Longrightarrow> \<forall>i \<in> set idxs. i < length y \<Longrightarrow>
     0 \<le> sum_list (map (\<lambda>i. y ! i) idxs)"
  by (induction idxs) auto

lemma sum_np_index_nonneg:
  "\<forall>v \<in> set a. (0::int) \<le> v \<Longrightarrow> np_index a q = Inr vs \<Longrightarrow> 0 \<le> sum_list vs"
  using sum_labels_nonneg[of a q] by (auto simp: np_index_def split: if_splits)

lemma sum_labels_le_length:
  "\<forall>v \<in> set y. v = (0::int) \<or> v = 1 \<Longrightarrow> \<forall>i \<in> set idxs. i < length y \<Longrightarrow>
     sum_list (map (\<lambda>i. y ! i) idxs) \<le> int (length idxs)"
proof (induction idxs)
  case Nil
  then show ?case by simp
next
  case (Cons i idxs)
  then have "y ! i \<in> set y" by simp
  with Cons.prems(1) have "y ! i \<le> 1" by auto
  with Cons show ?case by simp
qed

lemma sum_labels_all_zero:
  "\<forall>v \<in> set y. v = (0::int) \<Longrightarrow> \<forall>i \<in> set idxs. i < length y \<Longrightarrow>
     sum_list (map (\<lambda>i. y ! i) idxs) = 0"
  by (induction idxs) auto

lemma sum_labels_all_one:
  "\<forall>v \<in> set y. v = (1::int) \<Longrightarrow> \<forall>i \<in> set idxs. i < length y \<Longrightarrow>
     sum_list (map (\<lambda>i. y ! i) idxs) = int (length idxs)"
  by (induction idxs) auto

lemma sum_binary_labels:
  "\<forall>v \<in> set y. v = (0::int) \<or> v = 1 \<Longrightarrow> \<forall>i \<in> set idxs. i < length y \<Longrightarrow>
     sum_list (map (\<lambda>i. y ! i) idxs) = int (length (filter (\<lambda>i. y ! i = 1) idxs))"
proof (induction idxs)
  case Nil
  then show ?case by simp
next
  case (Cons i idxs)
  then have "y ! i \<in> set y" by simp
  with Cons.prems(1) have "y ! i = 0 \<or> y ! i = 1" by auto
  with Cons show ?case by auto
qed

lemma length_concat_batches:
  "\<forall>b \<in> set bs. length b = k \<Longrightarrow> length (concat bs) = length bs * k"
  by (induction bs) auto

section \<open>Properties of the random sample\<close>

lemma sample_from_props:
  "distinct pop \<Longrightarrow> k \<le> length pop \<Longrightarrow> sample_from nxt pop k g = (xs, g') \<Longrightarrow>
     length xs = k \<and> distinct xs \<and> set xs \<subseteq> set pop"
proof (induction k arbitrary: pop g xs g')
  case 0
  then show ?case by simp
next
  case (Suc k)
  from Suc.prems(2) have ne: "pop \<noteq> []" by auto
  obtain r g1 where r: "nxt g = (r, g1)" by (cases "nxt g")
  define i where "i = r mod length pop"
  define pop' where "pop' = take i pop @ drop (Suc i) pop"
  obtain rest g2 where rest: "sample_from nxt pop' k g1 = (rest, g2)"
    by (cases "sample_from nxt pop' k g1")
  have i_lt: "i < length pop" using ne by (simp add: i_def)
  have xs: "xs = pop ! i # rest"
    using Suc.prems(3) ne r rest by (simp add: i_def pop'_def Let_def)
  have pop_split: "pop = take i pop @ pop ! i # drop (Suc i) pop"
    using i_lt by (simp add: id_take_nth_drop)
  have "distinct (take i pop @ pop ! i # drop (Suc i) pop)"
    using Suc.prems(1) pop_split by simp
  then have d': "distinct pop'" and notin: "pop ! i \<notin> set pop'"
    unfolding pop'_def by simp_all
  have sub: "set pop' \<subseteq> set pop"
    unfolding pop'_def by (auto dest: in_set_takeD in_set_dropD)
  have len': "k \<le> length pop'"
    using Suc.prems(2) i_lt by (simp add: pop'_def)
  from Suc.IH[OF d' len' rest] have ih: "length rest = k" "distinct rest" "set rest \<subseteq> set pop'"
    by auto
  show ?case using ih notin sub i_lt xs by auto
qed

lemma np_random_choice_draws:
  assumes "k \<le> M"
  shows "\<exists>xs g'. np_random_choice nxt M k g = (Inr xs, g') \<and>
           length xs = k \<and> distinct xs \<and> (\<forall>i \<in> set xs. i < M)"
proof -
  obtain xs g' where s: "sample_from nxt [0..<M] k g = (xs, g')"
    by (cases "sample_from nxt [0..<M] k g")
  from sample_from_props[OF _ _ s] assms
  have "length xs = k \<and> distinct xs \<and> set xs \<subseteq> set [0..<M]" by simp
  then have "length xs = k \<and> distinct xs \<and> (\<forall>i \<in> set xs. i < M)" by auto
  moreover have "np_random_choice nxt M k g = (Inr xs, g')"
    using assms s by (simp add: np_random_choice_def)
  ultimately show ?thesis by blast
qed

lemma admissible_Cons: "admissible M (c # cs) \<longleftrightarrow> c < M \<and> admissible (M - 1) cs"
proof
  assume a: "admissible M (c # cs)"
  then have "c < M" unfolding admissible_def by force
  moreover have "admissible (M - 1) cs"
    unfolding admissible_def
  proof (intro allI impI)
    fix j assume "j < length cs"
    then have "(c # cs) ! Suc j < M - Suc j" using a unfolding admissible_def by force
    then show "cs ! j < M - 1 - j" by simp
  qed
  ultimately show "c < M \<and> admissible (M - 1) cs" by simp
next
  assume a: "c < M \<and> admissible (M - 1) cs"
  show "admissible M (c # cs)"
    unfolding admissible_def
  proof (intro allI impI)
    fix j assume j: "j < length (c # cs)"
    show "(c # cs) ! j < M - j"
    proof (cases j)
      case 0
      then show ?thesis using a by simp
    next
      case (Suc i)
      then have "i < length cs" using j by simp
      then have "cs ! i < M - 1 - i" using a unfolding admissible_def by blast
      then show ?thesis using Suc by simp
    qed
  qed
qed

lemma sample_from_tape_Cons:
  "c < length pop \<Longrightarrow>
   fst (sample_from tape pop (Suc k) (c # cs)) =
     pop ! c # fst (sample_from tape (take c pop @ drop (Suc c) pop) k cs)"
  by (auto simp: tape_def Let_def split: prod.splits)

lemma sample_from_tape_unique:
  "distinct pop \<Longrightarrow> distinct xs \<Longrightarrow> set xs \<subseteq> set pop \<Longrightarrow>
     \<exists>!cs. length cs = length xs \<and> admissible (length pop) cs \<and>
       fst (sample_from tape pop (length xs) cs) = xs"
proof (induction xs arbitrary: pop)
  case Nil
  show ?case by (rule ex1I[of _ "[]"]) (simp_all add: admissible_def)
next
  case (Cons x xs)
  from Cons.prems have xin: "x \<in> set pop" and xnot: "x \<notin> set xs" and dxs: "distinct xs"
    and sub: "set xs \<subseteq> set pop"
    by auto
  from xin obtain i where i: "i < length pop" "pop ! i = x"
    by (auto simp: in_set_conv_nth)
  define pop' where "pop' = take i pop @ drop (Suc i) pop"
  have "pop = take i pop @ pop ! i # drop (Suc i) pop"
    using i(1) by (rule id_take_nth_drop)
  then have split: "pop = take i pop @ x # drop (Suc i) pop"
    unfolding i(2) .
  have "distinct (take i pop @ x # drop (Suc i) pop)"
    using Cons.prems(1) split by simp
  then have d': "distinct pop'" and xnot': "x \<notin> set pop'"
    unfolding pop'_def by simp_all
  have "set pop = insert x (set pop')"
    unfolding pop'_def by (subst split) auto
  then have sub': "set xs \<subseteq> set pop'"
    using sub xnot by auto
  have len': "length pop' = length pop - 1"
    using i by (simp add: pop'_def)
  from Cons.IH[OF d' dxs sub'] obtain cs where
    cs: "length cs = length xs" "admissible (length pop') cs"
      "fst (sample_from tape pop' (length xs) cs) = xs"
    and uniq: "\<And>ds. length ds = length xs \<and> admissible (length pop') ds \<and>
      fst (sample_from tape pop' (length xs) ds) = xs \<Longrightarrow> ds = cs"
    by (auto elim!: ex1E)
  show ?case
  proof (rule ex1I[of _ "i # cs"])
    show "length (i # cs) = length (x # xs) \<and> admissible (length pop) (i # cs) \<and>
       fst (sample_from tape pop (length (x # xs)) (i # cs)) = x # xs"
      using cs i len' sample_from_tape_Cons[OF i(1), of "length xs" cs]
      by (simp add: admissible_Cons pop'_def)
  next
    fix ds
    assume ds: "length ds = length (x # xs) \<and> admissible (length pop) ds \<and>
       fst (sample_from tape pop (length (x # xs)) ds) = x # xs"
    then obtain c ds' where dsc: "ds = c # ds'" by (cases ds) auto
    from ds dsc have c: "c < length pop" and adm': "admissible (length pop - 1) ds'"
      and lds: "length ds' = length xs"
      by (simp_all add: admissible_Cons)
    from ds dsc sample_from_tape_Cons[OF c, of "length xs" ds']
    have hd: "pop ! c = x"
      and tl: "fst (sample_from tape (take c pop @ drop (Suc c) pop) (length xs) ds') = xs"
      by simp_all
    have "pop ! c = pop ! i" using hd i(2) by simp
    then have ci: "c = i"
      using nth_eq_iff_index_eq[OF Cons.prems(1) c i(1)] by simp
    have "ds' = cs"
      using uniq[of ds'] lds adm' tl unfolding ci pop'_def[symmetric] len' by simp
    with ci dsc show "ds = i # cs" by simp
  qed
qed

lemma np_random_choice_tape_unique:
  assumes "length xs = k" "distinct xs" "\<forall>i \<in> set xs. i < M"
  shows "\<exists>!cs. length cs = k \<and> admissible M cs \<and> fst (np_random_choice tape M k cs) = Inr xs"
proof -
  have sub: "set xs \<subseteq> set [0..<M]" using assms(3) by auto
  have kM: "k \<le> M"
    using assms distinct_card[OF assms(2)] card_mono[of "{..<M}" "set xs"] by auto
  have eq: "\<And>cs. fst (np_random_choice tape M k cs) = Inr (fst (sample_from tape [0..<M] k cs))"
    using kM by (simp add: np_random_choice_def split: prod.splits)
  from sample_from_tape_unique[OF distinct_upt assms(2) sub]
  show ?thesis unfolding eq assms(1) by simp
qed

section \<open>Properties of the cycles\<close>

lemma queried_append: "queried (cs @ ds) = queried cs @ queried ds"
  by (induction cs rule: queried.induct) simp_all

lemma new_calls_update [simp]:
  "new_calls \<sigma> (\<sigma>\<lparr>rng := g, calls := calls \<sigma> @ c\<rparr>) = c"
  by (simp add: new_calls_def)

lemma al_cycle_Inr:
  assumes "al_cycle E orc l p \<sigma> = (Inr (l', p'), \<sigma>')"
  shows "\<exists>q g1 ys xs yq g2.
           learner_query E l (X_pool \<sigma>) (n_instances \<sigma>) (rng \<sigma>) = (q, g1) \<and>
           get_values \<sigma> orc q = Inr ys \<and>
           np_index (X_pool \<sigma>) q = Inr xs \<and>
           np_index (y_pool \<sigma>) q = Inr yq \<and>
           learner_teach E l xs yq g1 = (l', g2) \<and>
           p' = p @ q \<and>
           \<sigma>' = \<sigma>\<lparr>rng := g2,
                    calls := calls \<sigma> @ [Query (X_pool \<sigma>) (n_instances \<sigma>) q, Lookup q ys, Teach xs yq]\<rparr>"
  using assms
  by (auto simp: al_cycle_def get_values_def Let_def split: prod.splits sum.splits)

lemma al_cycle_succeeds:
  assumes q: "learner_query E l (X_pool \<sigma>) (n_instances \<sigma>) (rng \<sigma>) = (q, g1)"
    and r: "\<forall>i \<in> set q. i < length (df \<sigma>)"
    and lx: "length (X_pool \<sigma>) = length (df \<sigma>)" and ly: "length (y_pool \<sigma>) = length (df \<sigma>)"
  shows "\<exists>l' g2 c. al_cycle E orc l p \<sigma> = (Inr (l', p @ q), \<sigma>\<lparr>rng := g2, calls := calls \<sigma> @ c\<rparr>)
            \<and> queried c = [q]"
proof -
  define xs where "xs = map (\<lambda>i. X_pool \<sigma> ! i) q"
  define yq where "yq = map (\<lambda>i. y_pool \<sigma> ! i) q"
  define ys where "ys = map (\<lambda>i. df_y_values (df \<sigma>) ! i) q"
  obtain l' g2 where t: "learner_teach E l xs yq g1 = (l', g2)"
    by (cases "learner_teach E l xs yq g1")
  define c where "c = [Query (X_pool \<sigma>) (n_instances \<sigma>) q, Lookup q ys, Teach xs yq]"
  have "al_cycle E orc l p \<sigma> = (Inr (l', p @ q), \<sigma>\<lparr>rng := g2, calls := calls \<sigma> @ c\<rparr>)"
    using q r lx ly t
    by (simp add: al_cycle_def get_values_def Let_def np_index_def df_y_values_def xs_def yq_def
        ys_def c_def)
  moreover have "queried c = [q]" by (simp add: c_def)
  ultimately show ?thesis by blast
qed

lemma al_cycles_run:
  assumes "query_in_range E (length (df \<sigma>))"
    and "length (X_pool \<sigma>) = length (df \<sigma>)" and "length (y_pool \<sigma>) = length (df \<sigma>)"
  shows "\<exists>l' g c. al_cycles E orc n l p \<sigma> =
            (Inr (l', p @ concat (queried c)), \<sigma>\<lparr>rng := g, calls := calls \<sigma> @ c\<rparr>) \<and>
          length (queried c) = n \<and>
          (\<forall>b \<in> set (queried c). \<forall>i \<in> set b. i < length (df \<sigma>)) \<and>
          (query_exact E (length (df \<sigma>)) (n_instances \<sigma>) \<longrightarrow>
             (\<forall>b \<in> set (queried c). length b = n_instances \<sigma>))"
  using assms
proof (induction n arbitrary: l p \<sigma>)
  case 0
  have "al_cycles E orc 0 l p \<sigma> = (Inr (l, p @ concat (queried [])), \<sigma>\<lparr>rng := rng \<sigma>, calls := calls \<sigma> @ []\<rparr>)"
    by simp
  then show ?case by (metis empty_iff length_0_conv list.set(1) queried.simps(1))
next
  case (Suc n)
  obtain q g1 where q: "learner_query E l (X_pool \<sigma>) (n_instances \<sigma>) (rng \<sigma>) = (q, g1)"
    by (cases "learner_query E l (X_pool \<sigma>) (n_instances \<sigma>) (rng \<sigma>)")
  have qr: "\<forall>i \<in> set q. i < length (df \<sigma>)"
    using Suc.prems(1,2) q unfolding query_in_range_def by (metis fst_conv)
  have qe: "query_exact E (length (df \<sigma>)) (n_instances \<sigma>) \<Longrightarrow> length q = n_instances \<sigma>"
    using Suc.prems(2) q unfolding query_exact_def by (metis fst_conv)
  from al_cycle_succeeds[OF q qr Suc.prems(2,3)] obtain l1 g2 c1 where
    c1: "al_cycle E orc l p \<sigma> = (Inr (l1, p @ q), \<sigma>\<lparr>rng := g2, calls := calls \<sigma> @ c1\<rparr>)"
    and qc1: "queried c1 = [q]" by blast
  define \<sigma>1 where "\<sigma>1 = \<sigma>\<lparr>rng := g2, calls := calls \<sigma> @ c1\<rparr>"
  have p1: "query_in_range E (length (df \<sigma>1))" "length (X_pool \<sigma>1) = length (df \<sigma>1)"
    "length (y_pool \<sigma>1) = length (df \<sigma>1)"
    using Suc.prems by (simp_all add: \<sigma>1_def)
  from Suc.IH[OF p1, of l1 "p @ q"] obtain l' g c2 where
    c2: "al_cycles E orc n l1 (p @ q) \<sigma>1 =
           (Inr (l', (p @ q) @ concat (queried c2)), \<sigma>1\<lparr>rng := g, calls := calls \<sigma>1 @ c2\<rparr>)"
    and n2: "length (queried c2) = n"
    and r2: "\<forall>b \<in> set (queried c2). \<forall>i \<in> set b. i < length (df \<sigma>1)"
    and e2: "query_exact E (length (df \<sigma>1)) (n_instances \<sigma>1) \<longrightarrow>
             (\<forall>b \<in> set (queried c2). length b = n_instances \<sigma>1)"
    by blast
  have run: "al_cycles E orc (Suc n) l p \<sigma> =
      (Inr (l', p @ concat (queried (c1 @ c2))), \<sigma>\<lparr>rng := g, calls := calls \<sigma> @ (c1 @ c2)\<rparr>)"
    using c1 c2 by (simp add: \<sigma>1_def queried_append qc1)
  have "length (queried (c1 @ c2)) = Suc n" by (simp add: queried_append qc1 n2)
  moreover have "\<forall>b \<in> set (queried (c1 @ c2)). \<forall>i \<in> set b. i < length (df \<sigma>)"
    using qr r2 by (simp add: queried_append qc1 \<sigma>1_def)
  moreover have "query_exact E (length (df \<sigma>)) (n_instances \<sigma>) \<longrightarrow>
             (\<forall>b \<in> set (queried (c1 @ c2)). length b = n_instances \<sigma>)"
    using qe e2 by (simp add: queried_append qc1 \<sigma>1_def)
  ultimately show ?case using run by blast
qed

lemma al_selection_run:
  assumes "n_initial \<sigma> \<le> length (df \<sigma>)"
    and "query_in_range E (length (df \<sigma>))"
    and "length (X_pool \<sigma>) = length (df \<sigma>)" and "length (y_pool \<sigma>) = length (df \<sigma>)"
  shows "\<exists>initial g g' c.
           np_random_choice (next_raw E) (length (df \<sigma>)) (n_initial \<sigma>) (rng \<sigma>) = (Inr initial, g) \<and>
           length initial = n_initial \<sigma> \<and> distinct initial \<and>
           (\<forall>i \<in> set initial. i < length (df \<sigma>)) \<and>
           al_selection E orc n \<sigma> =
             (Inr (initial @ concat (queried c)),
              \<sigma>\<lparr>rng := g', calls := calls \<sigma> @ Fit (X_training \<sigma>) (y_training \<sigma>) # c\<rparr>) \<and>
           length (queried c) = n \<and>
           (\<forall>b \<in> set (queried c). \<forall>i \<in> set b. i < length (df \<sigma>)) \<and>
           (query_exact E (length (df \<sigma>)) (n_instances \<sigma>) \<longrightarrow>
              (\<forall>b \<in> set (queried c). length b = n_instances \<sigma>))"
proof -
  from np_random_choice_draws[OF assms(1), of "next_raw E" "rng \<sigma>"] obtain initial g where
    ch: "np_random_choice (next_raw E) (length (df \<sigma>)) (n_initial \<sigma>) (rng \<sigma>) = (Inr initial, g)"
    and init: "length initial = n_initial \<sigma>" "distinct initial" "\<forall>i \<in> set initial. i < length (df \<sigma>)"
    by blast
  obtain learner g1 where fit: "ActiveLearner E (X_training \<sigma>) (y_training \<sigma>) g = (learner, g1)"
    by (cases "ActiveLearner E (X_training \<sigma>) (y_training \<sigma>) g")
  define \<sigma>1 where "\<sigma>1 = \<sigma>\<lparr>rng := g1, calls := calls \<sigma> @ [Fit (X_training \<sigma>) (y_training \<sigma>)]\<rparr>"
  have p1: "query_in_range E (length (df \<sigma>1))" "length (X_pool \<sigma>1) = length (df \<sigma>1)"
    "length (y_pool \<sigma>1) = length (df \<sigma>1)"
    using assms by (simp_all add: \<sigma>1_def)
  from al_cycles_run[OF p1, of orc n learner initial] obtain l' g' c where
    cyc: "al_cycles E orc n learner initial \<sigma>1 =
            (Inr (l', initial @ concat (queried c)), \<sigma>1\<lparr>rng := g', calls := calls \<sigma>1 @ c\<rparr>)"
    and props: "length (queried c) = n"
      "\<forall>b \<in> set (queried c). \<forall>i \<in> set b. i < length (df \<sigma>1)"
      "query_exact E (length (df \<sigma>1)) (n_instances \<sigma>1) \<longrightarrow>
             (\<forall>b \<in> set (queried c). length b = n_instances \<sigma>1)"
    by blast
  have "al_selection E orc n \<sigma> =
             (Inr (initial @ concat (queried c)),
              \<sigma>\<lparr>rng := g', calls := calls \<sigma> @ Fit (X_training \<sigma>) (y_training \<sigma>) # c\<rparr>)"
    using ch fit cyc by (simp add: al_selection_def \<sigma>1_def)
  moreover have "\<forall>b \<in> set (queried c). \<forall>i \<in> set b. i < length (df \<sigma>)"
    using props(2) by (simp add: \<sigma>1_def)
  moreover have "query_exact E (length (df \<sigma>)) (n_instances \<sigma>) \<longrightarrow>
              (\<forall>b \<in> set (queried c). length b = n_instances \<sigma>)"
    using props(3) by (simp add: \<sigma>1_def)
  ultimately show ?thesis using ch init props(1) by blast
qed

lemma al_cycles_snoc:
  "al_cycles E orc (Suc n) l p \<sigma> =
     (case al_cycles E orc n l p \<sigma> of
        (Inl e, \<sigma>1) \<Rightarrow> (Inl e, \<sigma>1)
      | (Inr (l1, p1), \<sigma>1) \<Rightarrow> al_cycle E orc l1 p1 \<sigma>1)"
proof (induction n arbitrary: l p \<sigma>)
  case 0
  show ?case by (simp split: prod.splits sum.splits)
next
  case (Suc n)
  show ?case
  proof (cases "al_cycle E orc l p \<sigma>")
    case (Pair r1 \<sigma>1)
    show ?thesis
    proof (cases r1)
      case (Inl e)
      with Pair show ?thesis by simp
    next
      case (Inr lp)
      obtain l1 p1 where "lp = (l1, p1)" by (cases lp)
      with Pair Inr have c: "al_cycle E orc l p \<sigma> = (Inr (l1, p1), \<sigma>1)" by simp
      have "al_cycles E orc (Suc (Suc n)) l p \<sigma> = al_cycles E orc (Suc n) l1 p1 \<sigma>1"
        using c by simp
      also have "\<dots> = (case al_cycles E orc n l1 p1 \<sigma>1 of
          (Inl e, \<sigma>2) \<Rightarrow> (Inl e, \<sigma>2)
        | (Inr (l2, p2), \<sigma>2) \<Rightarrow> al_cycle E orc l2 p2 \<sigma>2)"
        by (rule Suc.IH)
      also have "al_cycles E orc n l1 p1 \<sigma>1 = al_cycles E orc (Suc n) l p \<sigma>"
        using c by simp
      finally show ?thesis .
    qed
  qed
qed

lemma al_selection_snoc:
  assumes "al_selection E orc (Suc n) \<sigma> = (Inr picks', \<sigma>'')"
  shows "\<exists>picks \<sigma>' q. al_selection E orc n \<sigma> = (Inr picks, \<sigma>') \<and> picks' = picks @ q"
proof -
  obtain initial g where ch:
    "np_random_choice (next_raw E) (length (df \<sigma>)) (n_initial \<sigma>) (rng \<sigma>) = (Inr initial, g)"
    using assms by (auto simp: al_selection_def split: prod.splits sum.splits)
  obtain learner g1 where fit: "ActiveLearner E (X_training \<sigma>) (y_training \<sigma>) g = (learner, g1)"
    by (cases "ActiveLearner E (X_training \<sigma>) (y_training \<sigma>) g")
  define \<sigma>1 where "\<sigma>1 = \<sigma>\<lparr>rng := g1, calls := calls \<sigma> @ [Fit (X_training \<sigma>) (y_training \<sigma>)]\<rparr>"
  obtain l2 where big: "al_cycles E orc (Suc n) learner initial \<sigma>1 = (Inr (l2, picks'), \<sigma>'')"
    using assms ch fit unfolding al_selection_def \<sigma>1_def
    by (auto split: prod.splits sum.splits)
  obtain r \<sigma>' where small: "al_cycles E orc n learner initial \<sigma>1 = (r, \<sigma>')"
    by (cases "al_cycles E orc n learner initial \<sigma>1")
  from big small obtain l1 picks where r: "r = Inr (l1, picks)"
    and last: "al_cycle E orc l1 picks \<sigma>' = (Inr (l2, picks'), \<sigma>'')"
    unfolding al_cycles_snoc by (auto split: prod.splits sum.splits)
  from al_cycle_Inr[OF last] obtain q where "picks' = picks @ q" by blast
  moreover have "al_selection E orc n \<sigma> = (Inr picks, \<sigma>')"
    using ch fit small r by (simp add: al_selection_def \<sigma>1_def)
  ultimately show ?thesis by blast
qed

lemma print_cycles_sorted:
  assumes "\<forall>v \<in> set (y_pool \<sigma>). 0 \<le> v"
    and "print_cycles E orc n l p printed \<sigma> = (Inr (l', p', printed'), \<sigma>')"
  shows "\<exists>new. printed' = printed @ new \<and> length new = n \<and> sorted new \<and>
           (\<forall>v \<in> set new. \<forall>vs. np_index (y_pool \<sigma>) p = Inr vs \<longrightarrow> sum_list vs \<le> v)"
  using assms
proof (induction n arbitrary: l p printed \<sigma>)
  case 0
  then show ?case by simp
next
  case (Suc n)
  obtain r1 \<sigma>1 where c: "al_cycle E orc l p \<sigma> = (r1, \<sigma>1)"
    by (cases "al_cycle E orc l p \<sigma>")
  from Suc.prems(2) c obtain l1 p1 where r1: "r1 = Inr (l1, p1)"
    by (cases r1) auto
  from al_cycle_Inr[OF c[unfolded r1]] obtain q g2 cs where
    p1: "p1 = p @ q" and s1: "\<sigma>1 = \<sigma>\<lparr>rng := g2, calls := calls \<sigma> @ cs\<rparr>"
    by blast
  have y1: "y_pool \<sigma>1 = y_pool \<sigma>" using s1 by simp
  from Suc.prems(2) c r1 obtain vs1 where
    vs1: "np_index (y_pool \<sigma>1) p1 = Inr vs1"
    and rest: "print_cycles E orc n l1 p1 (printed @ [sum_list vs1]) \<sigma>1 = (Inr (l', p', printed'), \<sigma>')"
    by (auto split: sum.splits)
  have nn1: "\<forall>v \<in> set (y_pool \<sigma>1). 0 \<le> v" using Suc.prems(1) y1 by simp
  from Suc.IH[OF nn1 rest] obtain new where
    new: "printed' = (printed @ [sum_list vs1]) @ new" "length new = n" "sorted new"
      "\<forall>v \<in> set new. \<forall>vs. np_index (y_pool \<sigma>1) p1 = Inr vs \<longrightarrow> sum_list vs \<le> v"
    by blast
  from np_index_append[OF vs1[unfolded p1 y1]] obtain v1 v2 where
    v: "np_index (y_pool \<sigma>) p = Inr v1" "np_index (y_pool \<sigma>) q = Inr v2" "vs1 = v1 @ v2"
    by blast
  have ge: "sum_list v1 \<le> sum_list vs1"
    using sum_np_index_nonneg[OF Suc.prems(1) v(2)] v(3) by simp
  have above: "\<forall>v \<in> set new. sum_list vs1 \<le> v"
    using new(4) vs1 by blast
  have "printed' = printed @ (sum_list vs1 # new)" using new(1) by simp
  moreover have "length (sum_list vs1 # new) = Suc n" using new(2) by simp
  moreover have "sorted (sum_list vs1 # new)" using new(3) above by simp
  moreover have "\<forall>v \<in> set (sum_list vs1 # new). \<forall>vs. np_index (y_pool \<sigma>) p = Inr vs \<longrightarrow> sum_list vs \<le> v"
    using above ge v(1) by auto
  ultimately show ?case by blast
qed

section \<open>The record of calls is write-only\<close>

lemma log_freeI:
  "(\<And>C. F (\<sigma>\<lparr>calls := C\<rparr>) = (r, \<sigma>\<lparr>rng := g, calls := C @ c\<rparr>)) \<Longrightarrow> log_free F \<sigma>"
  unfolding log_free_def by blast

lemma rng_update_same: "\<sigma>\<lparr>rng := rng \<sigma>, calls := C\<rparr> = \<sigma>\<lparr>calls := C\<rparr>"
  by (cases \<sigma>) simp

lemma al_cycle_log_free: "log_free (al_cycle E orc l p) \<sigma>"
proof -
  obtain q g1 where q: "learner_query E l (X_pool \<sigma>) (n_instances \<sigma>) (rng \<sigma>) = (q, g1)"
    by (cases "learner_query E l (X_pool \<sigma>) (n_instances \<sigma>) (rng \<sigma>)")
  let ?Q = "Query (X_pool \<sigma>) (n_instances \<sigma>) q"
  show ?thesis
  proof (cases "np_index (df_y_values (df \<sigma>)) q")
    case (Inl e)
    show ?thesis
      by (rule log_freeI[where r="Inl e" and g=g1 and c="[?Q]"])
        (simp add: al_cycle_def get_values_def q Inl)
  next
    case ys: (Inr ys)
    show ?thesis
    proof (cases "np_index (X_pool \<sigma>) q")
      case (Inl e)
      show ?thesis
        by (rule log_freeI[where r="Inl e" and g=g1 and c="[?Q, Lookup q ys]"])
          (simp add: al_cycle_def get_values_def q ys Inl)
    next
      case xq: (Inr xq)
      show ?thesis
      proof (cases "np_index (y_pool \<sigma>) q")
        case (Inl e)
        show ?thesis
          by (rule log_freeI[where r="Inl e" and g=g1 and c="[?Q, Lookup q ys]"])
            (simp add: al_cycle_def get_values_def q ys xq Inl)
      next
        case yq: (Inr yq)
        obtain l' g2 where t: "learner_teach E l xq yq g1 = (l', g2)"
          by (cases "learner_teach E l xq yq g1")
        show ?thesis
          by (rule log_freeI[where r="Inr (l', p @ q)" and g=g2 and c="[?Q, Lookup q ys, Teach xq yq]"])
            (simp add: al_cycle_def get_values_def q ys xq yq t)
      qed
    qed
  qed
qed

lemma al_cycles_log_free: "log_free (al_cycles E orc n l p) \<sigma>"
proof (induction n arbitrary: l p \<sigma>)
  case (0 l p \<sigma>)
  show ?case
    by (rule log_freeI[where r="Inr (l, p)" and g="rng \<sigma>" and c="[]"])
      (simp add: rng_update_same)
next
  case (Suc n l p \<sigma>)
  from al_cycle_log_free[of E orc l p \<sigma>] obtain r1 g1 c1 where
    c1: "\<And>C. al_cycle E orc l p (\<sigma>\<lparr>calls := C\<rparr>) = (r1, \<sigma>\<lparr>rng := g1, calls := C @ c1\<rparr>)"
    unfolding log_free_def by blast
  show ?case
  proof (cases r1)
    case (Inl e)
    show ?thesis
      by (rule log_freeI[where r="Inl e" and g=g1 and c=c1]) (simp add: c1 Inl)
  next
    case (Inr lp)
    obtain l1 p1 where lp: "lp = (l1, p1)" by (cases lp)
    from Suc.IH[of l1 p1 "\<sigma>\<lparr>rng := g1\<rparr>"] obtain r2 g2 c2 where
      c2: "\<And>C. al_cycles E orc n l1 p1 (\<sigma>\<lparr>rng := g1, calls := C\<rparr>) =
              (r2, \<sigma>\<lparr>rng := g2, calls := C @ c2\<rparr>)"
      unfolding log_free_def by auto
    show ?thesis
      by (rule log_freeI[where r=r2 and g=g2 and c="c1 @ c2"]) (simp add: c1 Inr lp c2)
  qed
qed

lemma al_selection_log_free: "log_free (al_selection E orc n) \<sigma>"
proof (cases "np_random_choice (next_raw E) (length (df \<sigma>)) (n_initial \<sigma>) (rng \<sigma>)")
  case (Pair r0 g)
  show ?thesis
  proof (cases r0)
    case (Inl e)
    show ?thesis
      by (rule log_freeI[where r="Inl e" and g=g and c="[]"]) (simp add: al_selection_def Pair Inl)
  next
    case (Inr initial)
    obtain learner g1 where fit: "ActiveLearner E (X_training \<sigma>) (y_training \<sigma>) g = (learner, g1)"
      by (cases "ActiveLearner E (X_training \<sigma>) (y_training \<sigma>) g")
    let ?F = "Fit (X_training \<sigma>) (y_training \<sigma>)"
    from al_cycles_log_free[of E orc n learner initial "\<sigma>\<lparr>rng := g1\<rparr>"] obtain r2 g2 c2 where
      c2: "\<And>C. al_cycles E orc n learner initial (\<sigma>\<lparr>rng := g1, calls := C\<rparr>) =
              (r2, \<sigma>\<lparr>rng := g2, calls := C @ c2\<rparr>)"
      unfolding log_free_def by auto
    show ?thesis
    proof (cases r2)
      case e: (Inl e)
      show ?thesis
        by (rule log_freeI[where r="Inl e" and g=g2 and c="?F # c2"])
          (simp add: al_selection_def Pair Inr fit c2 e)
    next
      case lp: (Inr lp)
      obtain l2 picks where "lp = (l2, picks)" by (cases lp)
      with lp show ?thesis
        by - (rule log_freeI[where r="Inr picks" and g=g2 and c="?F # c2"],
          simp add: al_selection_def Pair Inr fit c2)
    qed
  qed
qed

lemma run_active_learning_log_free: "log_free (run_active_learning E X y orc n) \<sigma>"
proof -
  from al_selection_log_free[of E orc n \<sigma>] obtain r1 g1 c1 where
    c1: "\<And>C. al_selection E orc n (\<sigma>\<lparr>calls := C\<rparr>) = (r1, \<sigma>\<lparr>rng := g1, calls := C @ c1\<rparr>)"
    unfolding log_free_def by blast
  show ?thesis
  proof (cases r1)
    case (Inl e)
    show ?thesis
      by (rule log_freeI[where r="Inl e" and g=g1 and c=c1]) (simp add: run_active_learning_def c1 Inl)
  next
    case (Inr picks)
    show ?thesis
    proof (cases "np_index y picks")
      case e: (Inl e)
      show ?thesis
        by (rule log_freeI[where r="Inl e" and g=g1 and c=c1]) (simp add: run_active_learning_def c1 Inr e)
    next
      case vs: (Inr vs)
      show ?thesis
        by (rule log_freeI[where r="Inr (sum_list vs)" and g=g1 and c=c1])
          (simp add: run_active_learning_def c1 Inr vs)
    qed
  qed
qed

lemma random_trial_log_free: "log_free (random_trial E k) \<sigma>"
proof (cases "np_random_choice (next_raw E) (length (df \<sigma>)) k (rng \<sigma>)")
  case (Pair r0 g)
  show ?thesis
  proof (cases r0)
    case (Inl e)
    show ?thesis
      by (rule log_freeI[where r="Inl e" and g=g and c="[]"]) (simp add: random_trial_def Pair Inl)
  next
    case (Inr random_list)
    show ?thesis
    proof (cases "np_index (df_y_values (df \<sigma>)) random_list")
      case e: (Inl e)
      show ?thesis
        by (rule log_freeI[where r="Inl e" and g=g and c="[]"]) (simp add: random_trial_def Pair Inr e)
    next
      case vs: (Inr vs)
      show ?thesis
        by (rule log_freeI[where r="Inr (random_list, sum_list vs)" and g=g and c="[]"])
          (simp add: random_trial_def Pair Inr vs)
    qed
  qed
qed

lemma seeded_reruns_agree:
  assumes "\<And>\<tau>. log_free F \<tau>"
  shows "fst (second_seeded F E s \<sigma>) = fst (first_seeded F E s \<sigma>) \<and>
         rng (snd (second_seeded F E s \<sigma>)) = rng (snd (first_seeded F E s \<sigma>)) \<and>
         emitted F (np_random_seed E s (snd (first_seeded F E s \<sigma>))) =
           emitted F (np_random_seed E s \<sigma>)"
proof -
  define \<sigma>0 where "\<sigma>0 = np_random_seed E s \<sigma>"
  from assms[of \<sigma>0] obtain r g c where
    F: "\<And>C. F (\<sigma>0\<lparr>calls := C\<rparr>) = (r, \<sigma>0\<lparr>rng := g, calls := C @ c\<rparr>)"
    unfolding log_free_def by blast
  have one: "F \<sigma>0 = (r, \<sigma>0\<lparr>rng := g, calls := calls \<sigma>0 @ c\<rparr>)"
    using F[of "calls \<sigma>0"] by simp
  have fs: "first_seeded F E s \<sigma> = (r, \<sigma>0\<lparr>rng := g, calls := calls \<sigma>0 @ c\<rparr>)"
    unfolding first_seeded_def \<sigma>0_def[symmetric] by (rule one)
  define \<sigma>1 where "\<sigma>1 = np_random_seed E s (snd (first_seeded F E s \<sigma>))"
  have reseed: "\<sigma>1 = \<sigma>0\<lparr>calls := calls \<sigma>0 @ c\<rparr>"
    unfolding \<sigma>1_def fs by (simp add: np_random_seed_def \<sigma>0_def)
  have two: "F \<sigma>1 = (r, \<sigma>0\<lparr>rng := g, calls := (calls \<sigma>0 @ c) @ c\<rparr>)"
    unfolding reseed by (rule F)
  have ss: "second_seeded F E s \<sigma> = (r, \<sigma>0\<lparr>rng := g, calls := (calls \<sigma>0 @ c) @ c\<rparr>)"
    unfolding second_seeded_def \<sigma>1_def[symmetric] by (rule two)
  have e0: "emitted F \<sigma>0 = c"
    unfolding emitted_def one by (simp add: new_calls_def)
  have e1: "emitted F \<sigma>1 = c"
    unfolding emitted_def two unfolding reseed by (simp add: new_calls_def)
  have "fst (second_seeded F E s \<sigma>) = fst (first_seeded F E s \<sigma>)"
    by (simp add: ss fs)
  moreover have "rng (snd (second_seeded F E s \<sigma>)) = rng (snd (first_seeded F E s \<sigma>))"
    by (simp add: ss fs)
  moreover have "emitted F (np_random_seed E s (snd (first_seeded F E s \<sigma>))) =
      emitted F (np_random_seed E s \<sigma>)"
    unfolding \<sigma>1_def[symmetric] \<sigma>0_def[symmetric] e0 e1 by (rule refl)
  ultimately show ?thesis by (intro conjI)
qed

section \<open>Runs of the small notebook\<close>

lemma demo_ready_reached:
  "select_training (snd (select_initial demo_library 1 (load_pool demo_start))) = (Inr (), demo_ready)"
  by (simp add: select_training_def select_initial_def load_pool_def demo_start_def demo_ready_def
      demo_library_def demo_frame_def df_fp_values_def df_y_values_def np_random_choice_def
      np_index_def Let_def)

lemma demo_selection:
  "al_selection demo_library (Oracle_init demo_frame) 2 demo_ready =
     (Inr [1, 0, 1, 0, 1], demo_ready\<lparr>rng := 2, calls := demo_calls\<rparr>)"
  by code_simp

lemma demo_hits:
  "run_active_learning demo_library (X_pool demo_ready) (y_pool demo_ready)
     (Oracle_init demo_frame) 2 demo_ready =
     (Inr 3, demo_ready\<lparr>rng := 2, calls := demo_calls\<rparr>)"
  by code_simp

lemma demo_hits_one_cycle:
  "run_active_learning demo_library (X_pool demo_ready) (y_pool demo_ready)
     (Oracle_init demo_frame) 1 demo_ready =
     (Inr 2, demo_ready\<lparr>rng := 2, calls := take 4 demo_calls\<rparr>)"
  by code_simp

lemma demo_random_trial:
  "random_trial demo_library 2 demo_ready = (Inr ([1, 3], 1), demo_ready\<lparr>rng := 3\<rparr>)"
  by code_simp

lemma demo_first_run:
  "first_run demo_library (Oracle_init demo_frame) () 2 2 demo_ready =
     (Inr ((), [0, 0, 1, 0, 1], [1, 2]), demo_ready\<lparr>calls := tl demo_calls\<rparr>)"
  by code_simp

lemma demo_query_in_range: "query_in_range demo_library (length (df demo_ready))"
  by (auto simp: query_in_range_def demo_library_def dest: in_set_takeD)

lemma demo_query_exact:
  "query_exact demo_library (length (df demo_ready)) (n_instances demo_ready)"
  by (simp add: query_exact_def demo_library_def demo_ready_def demo_frame_def)

lemma demo_sizes:
  "n_initial demo_ready \<le> length (df demo_ready)"
  "length (X_pool demo_ready) = length (df demo_ready)"
  "length (y_pool demo_ready) = length (df demo_ready)"
  by (simp_all add: demo_ready_def demo_frame_def)

section \<open>The training set of a trial\<close>

text \<open>
  C1. The spec says that each trial fits its model on the features and labels at the
  initial indices that this trial has just drawn. \<^verbatim>\<open>run_active_learning\<close> draws a new
  \<^verbatim>\<open>initial_list\<close> but builds the learner from the global \<^verbatim>\<open>X_training\<close> and
  \<^verbatim>\<open>y_training\<close>, which the cell before it computed from the first, global
  \<^verbatim>\<open>initial_list\<close>. In the small notebook the global initial list is \<open>[0]\<close>, with the
  training set \<open>([10], [0])\<close>. The trial draws \<open>[1]\<close>, whose rows are \<open>([11], [1])\<close>, and
  the learner is fitted on \<open>([10], [0])\<close>.
\<close>

theorem trial_fits_stale_training_set:
  "initial_list demo_ready = [0] \<and>
   al_selection demo_library (Oracle_init demo_frame) 0 demo_ready =
     (Inr [1], demo_ready\<lparr>rng := 2, calls := [Fit [10] [0]]\<rparr>) \<and>
   map (\<lambda>i. X_pool demo_ready ! i) [1] = [11] \<and>
   map (\<lambda>i. y_pool demo_ready ! i) [1] = [1] \<and>
   Fit [10] [0] \<noteq> Fit (map (\<lambda>i. X_pool demo_ready ! i) [1]) (map (\<lambda>i. y_pool demo_ready ! i) [1])"
  by (simp add: al_selection_def demo_ready_def demo_library_def demo_frame_def
      np_random_choice_def Let_def)

section \<open>The hit count of a trial\<close>



text \<open>
  C4. When moreover every label is 0 or 1 and every query returns exactly
  \<open>n_instances\<close> indices, the hit count lies between 0 and
  \<open>n_initial + num_cycles * n_instances\<close>; it is 0 when every label is 0 and
  \<open>n_initial + num_cycles * n_instances\<close> when every label is 1.
\<close>

theorem hit_count_bounds:
  assumes "n_initial \<sigma> \<le> length (df \<sigma>)"
    and "query_in_range E (length (df \<sigma>))"
    and "query_exact E (length (df \<sigma>)) (n_instances \<sigma>)"
    and "length (X_pool \<sigma>) = length (df \<sigma>)" and "length (y_pool \<sigma>) = length (df \<sigma>)"
    and "length y = length (df \<sigma>)"
    and "\<forall>v \<in> set y. v = 0 \<or> v = 1"
  shows "\<exists>h \<sigma>'. run_active_learning E X y orc num_cycles \<sigma> = (Inr h, \<sigma>') \<and>
           0 \<le> h \<and> h \<le> int (n_initial \<sigma> + num_cycles * n_instances \<sigma>) \<and>
           ((\<forall>v \<in> set y. v = 0) \<longrightarrow> h = 0) \<and>
           ((\<forall>v \<in> set y. v = 1) \<longrightarrow> h = int (n_initial \<sigma> + num_cycles * n_instances \<sigma>))"
proof -
  from al_selection_run[OF assms(1,2,4,5), of orc num_cycles] assms(3) obtain initial g g' c where
    init: "length initial = n_initial \<sigma>" "\<forall>i \<in> set initial. i < length (df \<sigma>)"
    and sel: "al_selection E orc num_cycles \<sigma> =
             (Inr (initial @ concat (queried c)),
              \<sigma>\<lparr>rng := g', calls := calls \<sigma> @ Fit (X_training \<sigma>) (y_training \<sigma>) # c\<rparr>)"
    and len: "length (queried c) = num_cycles"
    and rng: "\<forall>b \<in> set (queried c). \<forall>i \<in> set b. i < length (df \<sigma>)"
    and ex: "\<forall>b \<in> set (queried c). length b = n_instances \<sigma>"
    by blast
  define \<sigma>' where "\<sigma>' = \<sigma>\<lparr>rng := g', calls := calls \<sigma> @ Fit (X_training \<sigma>) (y_training \<sigma>) # c\<rparr>"
  define picks where "picks = initial @ concat (queried c)"
  define h where "h = sum_list (map (\<lambda>i. y ! i) picks)"
  have inr: "\<forall>i \<in> set picks. i < length y"
    using init(2) rng assms(6) by (auto simp: picks_def)
  then have idx: "np_index y picks = Inr (map (\<lambda>i. y ! i) picks)"
    by (rule np_index_in_range)
  have run: "run_active_learning E X y orc num_cycles \<sigma> = (Inr h, \<sigma>')"
    using sel idx by (simp add: run_active_learning_def picks_def \<sigma>'_def h_def)
  have lp: "length picks = n_initial \<sigma> + num_cycles * n_instances \<sigma>"
    using init(1) len length_concat_batches[OF ex] by (simp add: picks_def)
  have nonneg: "\<forall>v \<in> set y. 0 \<le> v" using assms(7) by auto
  have "0 \<le> h" unfolding h_def using nonneg inr by (rule sum_labels_nonneg)
  moreover have "h \<le> int (n_initial \<sigma> + num_cycles * n_instances \<sigma>)"
    unfolding h_def lp[symmetric] using assms(7) inr by (rule sum_labels_le_length)
  moreover have "(\<forall>v \<in> set y. v = 0) \<longrightarrow> h = 0"
    unfolding h_def using inr by (auto intro: sum_labels_all_zero)
  moreover have "(\<forall>v \<in> set y. v = 1) \<longrightarrow> h = int (n_initial \<sigma> + num_cycles * n_instances \<sigma>)"
    unfolding h_def lp[symmetric] using inr by (auto intro: sum_labels_all_one)
  ultimately show ?thesis using run by blast
qed

theorem hit_count_bounds_witness:
  "(\<exists>\<sigma>'. run_active_learning demo_library (X_pool demo_ready) [1, 1, 1, 1]
            (Oracle_init demo_frame) 2 demo_ready = (Inr 5, \<sigma>')) \<and>
   (\<exists>\<sigma>'. run_active_learning demo_library (X_pool demo_ready) [0, 0, 0, 0]
            (Oracle_init demo_frame) 2 demo_ready = (Inr 0, \<sigma>')) \<and>
   (\<exists>h \<sigma>'. run_active_learning demo_library (X_pool demo_ready) [0, 1, 1, 0]
            (Oracle_init demo_frame) 2 demo_ready = (Inr h, \<sigma>') \<and> 0 \<le> h \<and> h \<le> 5) \<and>
   int (n_initial demo_ready + 2 * n_instances demo_ready) = 5"
proof -
  have len: "length [1, 1, 1, 1 :: int] = length (df demo_ready)"
    "length [0, 0, 0, 0 :: int] = length (df demo_ready)"
    "length [0, 1, 1, 0 :: int] = length (df demo_ready)"
    by (simp_all add: demo_ready_def demo_frame_def)
  have bin: "\<forall>v \<in> set [1, 1, 1, 1 :: int]. v = 0 \<or> v = 1"
    "\<forall>v \<in> set [0, 0, 0, 0 :: int]. v = 0 \<or> v = 1"
    "\<forall>v \<in> set [0, 1, 1, 0 :: int]. v = 0 \<or> v = 1"
    by simp_all
  have bound: "int (n_initial demo_ready + 2 * n_instances demo_ready) = 5"
    by (simp add: demo_ready_def)
  note inst = hit_count_bounds
      [where \<sigma>=demo_ready and E=demo_library and X="X_pool demo_ready"
         and orc="Oracle_init demo_frame" and num_cycles=2,
       OF demo_sizes(1) demo_query_in_range demo_query_exact demo_sizes(2,3)]
  from inst[OF len(1) bin(1)] have ones: "\<exists>\<sigma>'. run_active_learning demo_library (X_pool demo_ready)
      [1, 1, 1, 1] (Oracle_init demo_frame) 2 demo_ready = (Inr 5, \<sigma>')"
    unfolding bound by auto
  from inst[OF len(2) bin(2)] have zeros: "\<exists>\<sigma>'. run_active_learning demo_library (X_pool demo_ready)
      [0, 0, 0, 0] (Oracle_init demo_frame) 2 demo_ready = (Inr 0, \<sigma>')"
    by auto
  from inst[OF len(3) bin(3)] have mixed: "\<exists>h \<sigma>'. run_active_learning demo_library
      (X_pool demo_ready) [0, 1, 1, 0] (Oracle_init demo_frame) 2 demo_ready = (Inr h, \<sigma>') \<and>
      0 \<le> h \<and> h \<le> 5"
    unfolding bound by blast
  show ?thesis using ones zeros mixed bound by simp
qed

section \<open>The labels given to the learner\<close>


section \<open>Samples larger than the pool\<close>

text \<open>
  C5. A trial whose \<open>n_initial\<close> exceeds the number of molecules, and a baseline draw of
  more indices than there are molecules, fail with the ValueError of the random draw.
  The draw is the first statement of the trial and of the baseline's loop body: the
  state is unchanged, so no learner was built and no query, lookup or teach call was
  made, and the baseline loop has appended no hit count.
\<close>

theorem oversized_sample_rejected_at_start:
  "(length (df \<sigma>) < n_initial \<sigma> \<longrightarrow>
      al_selection E orc num_cycles \<sigma> = (Inl ValueError, \<sigma>) \<and>
      run_active_learning E X y orc num_cycles \<sigma> = (Inl ValueError, \<sigma>)) \<and>
   (length (df \<sigma>) < k \<longrightarrow>
      random_trial E k \<sigma> = (Inl ValueError, \<sigma>) \<and>
      random_trials E k (Suc n) random_hit_count_list \<sigma> = (Inl ValueError, \<sigma>))"
  by (simp add: al_selection_def run_active_learning_def random_trial_def np_random_choice_def)

theorem oversized_sample_rejected_at_start_witness:
  "al_selection demo_library (Oracle_init demo_frame) 2 (demo_ready\<lparr>n_initial := 5\<rparr>) =
     (Inl ValueError, demo_ready\<lparr>n_initial := 5\<rparr>) \<and>
   run_active_learning demo_library (X_pool demo_ready) (y_pool demo_ready)
     (Oracle_init demo_frame) 2 (demo_ready\<lparr>n_initial := 5\<rparr>) =
     (Inl ValueError, demo_ready\<lparr>n_initial := 5\<rparr>) \<and>
   random_trial demo_library 1000 (demo_ready\<lparr>n_initial := 5\<rparr>) =
     (Inl ValueError, demo_ready\<lparr>n_initial := 5\<rparr>) \<and>
   random_baseline demo_library (demo_ready\<lparr>n_initial := 5\<rparr>) =
     (Inl ValueError, demo_ready\<lparr>n_initial := 5\<rparr>)"
proof -
  have small: "length (df (demo_ready\<lparr>n_initial := 5\<rparr>)) < n_initial (demo_ready\<lparr>n_initial := 5\<rparr>)"
    "length (df (demo_ready\<lparr>n_initial := 5\<rparr>)) < 1000"
    by (simp_all add: demo_ready_def demo_frame_def)
  have ten: "(10::nat) = Suc 9" by simp
  show ?thesis
    using oversized_sample_rejected_at_start
      [where \<sigma>="demo_ready\<lparr>n_initial := 5\<rparr>" and E=demo_library and k=1000 and n=9
         and random_hit_count_list="[]" and orc="Oracle_init demo_frame" and num_cycles=2
         and X="X_pool demo_ready" and y="y_pool demo_ready"]
      small
    unfolding random_baseline_def ten by simp
qed

section \<open>The random baseline trial\<close>

text \<open>
  C6. For a sample size \<open>k\<close> of at most the number of molecules, the baseline trial
  draws \<open>k\<close> distinct indices of the data frame and returns the sum of the labels at
  exactly these indices, which for labels 0 and 1 is the number of drawn indices with
  label 1. With \<open>k = 0\<close> it draws the empty list and returns 0. The draw is uniform in
  this sense: every list of \<open>k\<close> distinct indices is drawn for exactly one admissible
  tape of generator outputs.
\<close>

theorem random_trial_counts_positives:
  "(k \<le> length (df \<sigma>) \<longrightarrow>
      (\<exists>random_list g.
         np_random_choice (next_raw E) (length (df \<sigma>)) k (rng \<sigma>) = (Inr random_list, g) \<and>
         length random_list = k \<and> distinct random_list \<and>
         (\<forall>i \<in> set random_list. i < length (df \<sigma>)) \<and>
         random_trial E k \<sigma> =
           (Inr (random_list, sum_list (map (\<lambda>i. df_y_values (df \<sigma>) ! i) random_list)),
            \<sigma>\<lparr>rng := g\<rparr>) \<and>
         ((\<forall>v \<in> set (df_y_values (df \<sigma>)). v = 0 \<or> v = 1) \<longrightarrow>
            sum_list (map (\<lambda>i. df_y_values (df \<sigma>) ! i) random_list) =
            int (length (filter (\<lambda>i. df_y_values (df \<sigma>) ! i = 1) random_list))))) \<and>
   random_trial E 0 \<sigma> = (Inr ([], 0), \<sigma>) \<and>
   (\<forall>xs. length xs = k \<and> distinct xs \<and> (\<forall>i \<in> set xs. i < length (df \<sigma>)) \<longrightarrow>
      (\<exists>!cs. length cs = k \<and> admissible (length (df \<sigma>)) cs \<and>
         fst (np_random_choice tape (length (df \<sigma>)) k cs) = Inr xs))"
proof (intro conjI impI allI)
  assume k: "k \<le> length (df \<sigma>)"
  from np_random_choice_draws[OF k, of "next_raw E" "rng \<sigma>"] obtain random_list g where
    ch: "np_random_choice (next_raw E) (length (df \<sigma>)) k (rng \<sigma>) = (Inr random_list, g)"
    and props: "length random_list = k" "distinct random_list"
      "\<forall>i \<in> set random_list. i < length (df \<sigma>)"
    by blast
  have inr: "\<forall>i \<in> set random_list. i < length (df_y_values (df \<sigma>))"
    using props(3) by (simp add: df_y_values_def)
  have "random_trial E k \<sigma> =
           (Inr (random_list, sum_list (map (\<lambda>i. df_y_values (df \<sigma>) ! i) random_list)),
            \<sigma>\<lparr>rng := g\<rparr>)"
    using ch np_index_in_range[OF inr] by (simp add: random_trial_def)
  moreover have "(\<forall>v \<in> set (df_y_values (df \<sigma>)). v = 0 \<or> v = 1) \<longrightarrow>
            sum_list (map (\<lambda>i. df_y_values (df \<sigma>) ! i) random_list) =
            int (length (filter (\<lambda>i. df_y_values (df \<sigma>) ! i = 1) random_list))"
    using inr by (auto intro: sum_binary_labels)
  ultimately show "\<exists>random_list g.
         np_random_choice (next_raw E) (length (df \<sigma>)) k (rng \<sigma>) = (Inr random_list, g) \<and>
         length random_list = k \<and> distinct random_list \<and>
         (\<forall>i \<in> set random_list. i < length (df \<sigma>)) \<and>
         random_trial E k \<sigma> =
           (Inr (random_list, sum_list (map (\<lambda>i. df_y_values (df \<sigma>) ! i) random_list)),
            \<sigma>\<lparr>rng := g\<rparr>) \<and>
         ((\<forall>v \<in> set (df_y_values (df \<sigma>)). v = 0 \<or> v = 1) \<longrightarrow>
            sum_list (map (\<lambda>i. df_y_values (df \<sigma>) ! i) random_list) =
            int (length (filter (\<lambda>i. df_y_values (df \<sigma>) ! i = 1) random_list)))"
    using ch props by blast
next
  show "random_trial E 0 \<sigma> = (Inr ([], 0), \<sigma>)"
    by (simp add: random_trial_def np_random_choice_def np_index_def)
next
  fix xs
  assume "length xs = k \<and> distinct xs \<and> (\<forall>i \<in> set xs. i < length (df \<sigma>))"
  then show "\<exists>!cs. length cs = k \<and> admissible (length (df \<sigma>)) cs \<and>
         fst (np_random_choice tape (length (df \<sigma>)) k cs) = Inr xs"
    by (intro np_random_choice_tape_unique) simp_all
qed

theorem random_trial_counts_positives_witness:
  "random_trial demo_library 2 demo_ready = (Inr ([1, 3], 1), demo_ready\<lparr>rng := 3\<rparr>) \<and>
   length (filter (\<lambda>i. df_y_values (df demo_ready) ! i = 1) [1, 3]) = 1 \<and>
   random_trial demo_library 0 demo_ready = (Inr ([], 0), demo_ready) \<and>
   np_random_choice tape 4 2 [1, 2] = (Inr [1, 3], []) \<and>
   (\<exists>!cs. length cs = 2 \<and> admissible 4 cs \<and> fst (np_random_choice tape 4 2 cs) = Inr [1, 3])"
proof -
  have k: "2 \<le> length (df demo_ready)" and M: "length (df demo_ready) = 4"
    by (simp_all add: demo_ready_def demo_frame_def)
  have bin: "\<forall>v \<in> set (df_y_values (df demo_ready)). v = 0 \<or> v = 1"
    by (simp add: demo_ready_def demo_frame_def df_y_values_def)
  note inst = random_trial_counts_positives[where k=2 and \<sigma>=demo_ready and E=demo_library]
  from inst k bin obtain random_list g where
    t: "random_trial demo_library 2 demo_ready =
          (Inr (random_list, sum_list (map (\<lambda>i. df_y_values (df demo_ready) ! i) random_list)),
           demo_ready\<lparr>rng := g\<rparr>)"
    and c: "sum_list (map (\<lambda>i. df_y_values (df demo_ready) ! i) random_list) =
            int (length (filter (\<lambda>i. df_y_values (df demo_ready) ! i = 1) random_list))"
    and z: "random_trial demo_library 0 demo_ready = (Inr ([], 0), demo_ready)"
    by blast
  from t demo_random_trial have rl: "random_list = [1, 3]"
    and s: "sum_list (map (\<lambda>i. df_y_values (df demo_ready) ! i) random_list) = 1"
    by simp_all
  from c s rl have one: "length (filter (\<lambda>i. df_y_values (df demo_ready) ! i = 1) [1, 3]) = 1"
    by simp
  have "length [1, 3 :: nat] = 2 \<and> distinct [1, 3 :: nat] \<and>
      (\<forall>i \<in> set [1, 3 :: nat]. i < length (df demo_ready))"
    by (simp add: M)
  with inst have u: "\<exists>!cs. length cs = 2 \<and> admissible 4 cs \<and>
      fst (np_random_choice tape 4 2 cs) = Inr [1, 3]"
    unfolding M by blast
  have e: "np_random_choice tape 4 2 [1, 2] = (Inr [1, 3], [])"
    by code_simp
  from demo_random_trial one z e u show ?thesis by (intro conjI)
qed

text \<open>
  C7. A random sample of size \<open>k\<close> from a pool of size \<open>M \<ge> k\<close> has exactly \<open>k\<close>
  indices, pairwise distinct and each below \<open>M\<close>; so has the initial selection that
  \<open>select_initial\<close> stores.
\<close>

theorem random_sample_distinct_in_range:
  "(k \<le> M \<longrightarrow>
      (\<exists>xs g'. np_random_choice nxt M k g = (Inr xs, g') \<and>
         length xs = k \<and> distinct xs \<and> (\<forall>i \<in> set xs. i < M))) \<and>
   (k \<le> length (df \<sigma>) \<longrightarrow>
      (\<exists>\<sigma>'. select_initial E k \<sigma> = (Inr (), \<sigma>') \<and>
         length (initial_list \<sigma>') = k \<and> distinct (initial_list \<sigma>') \<and>
         (\<forall>i \<in> set (initial_list \<sigma>'). i < length (df \<sigma>))))"
proof (intro conjI impI)
  assume "k \<le> M"
  then show "\<exists>xs g'. np_random_choice nxt M k g = (Inr xs, g') \<and>
         length xs = k \<and> distinct xs \<and> (\<forall>i \<in> set xs. i < M)"
    by (rule np_random_choice_draws)
next
  assume k: "k \<le> length (df \<sigma>)"
  from np_random_choice_draws[OF k, of "next_raw E" "rng \<sigma>"] obtain xs g where
    ch: "np_random_choice (next_raw E) (length (df \<sigma>)) k (rng \<sigma>) = (Inr xs, g)"
    and props: "length xs = k" "distinct xs" "\<forall>i \<in> set xs. i < length (df \<sigma>)"
    by blast
  have "select_initial E k \<sigma> = (Inr (), \<sigma>\<lparr>n_initial := k, initial_list := xs, rng := g\<rparr>)"
    using ch by (simp add: select_initial_def Let_def)
  then show "\<exists>\<sigma>'. select_initial E k \<sigma> = (Inr (), \<sigma>') \<and>
         length (initial_list \<sigma>') = k \<and> distinct (initial_list \<sigma>') \<and>
         (\<forall>i \<in> set (initial_list \<sigma>'). i < length (df \<sigma>))"
    using props by simp
qed

theorem random_sample_distinct_in_range_witness:
  "np_random_choice (next_raw demo_library) 4 2 1 = (Inr [1, 3], 3) \<and>
   (\<exists>xs g'. np_random_choice (next_raw demo_library) 4 2 1 = (Inr xs, g') \<and>
      length xs = 2 \<and> distinct xs \<and> (\<forall>i \<in> set xs. i < 4)) \<and>
   (\<exists>\<sigma>'. select_initial demo_library 2 demo_ready = (Inr (), \<sigma>') \<and>
      length (initial_list \<sigma>') = 2 \<and> distinct (initial_list \<sigma>') \<and>
      (\<forall>i \<in> set (initial_list \<sigma>'). i < length (df demo_ready)))"
proof -
  have k: "(2::nat) \<le> 4" "2 \<le> length (df demo_ready)"
    by (simp_all add: demo_ready_def demo_frame_def)
  have e: "np_random_choice (next_raw demo_library) 4 2 1 = (Inr [1, 3], 3)"
    by code_simp
  show ?thesis
    using random_sample_distinct_in_range
      [where k=2 and M=4 and nxt="next_raw demo_library" and g=1 and \<sigma>=demo_ready
         and E=demo_library] k e
    by simp
qed

section \<open>Hits never decrease from cycle to cycle\<close>

text \<open>
  C8. With labels 0 and 1, the hit count of a trial after \<open>n + 1\<close> cycles is at least
  its hit count after \<open>n\<close> cycles (the trial of \<open>n\<close> cycles from the same state returns
  whenever the longer one does), and the numbers that the first run prints after its
  cycles never decrease. The labels are taken to be 0 or 1 and not merely non-negative,
  because the code adds int64 numbers: with labels near \<open>2^62\<close> its sum wraps around
  and falls.
\<close>

theorem hits_monotone_in_cycles:
  "((\<forall>v \<in> set y. v = 0 \<or> v = 1) \<and>
    run_active_learning E X y orc (Suc n) \<sigma> = (Inr h', \<sigma>'') \<longrightarrow>
      (\<exists>h \<sigma>'. run_active_learning E X y orc n \<sigma> = (Inr h, \<sigma>') \<and> h \<le> h')) \<and>
   ((\<forall>v \<in> set (y_pool \<sigma>). v = 0 \<or> v = 1) \<and>
    first_run E orc learner k n \<sigma> = (Inr (learner', pick_list, printed), \<sigma>'') \<longrightarrow>
      length printed = n \<and> sorted printed)"
proof (rule conjI; rule impI)
  assume a: "(\<forall>v \<in> set y. v = 0 \<or> v = 1) \<and>
    run_active_learning E X y orc (Suc n) \<sigma> = (Inr h', \<sigma>'')"
  then have nn: "\<forall>v \<in> set y. 0 \<le> v" by auto
  from a obtain picks' vs' where sel': "al_selection E orc (Suc n) \<sigma> = (Inr picks', \<sigma>'')"
    and vs': "np_index y picks' = Inr vs'" and h': "h' = sum_list vs'"
    by (auto simp: run_active_learning_def split: prod.splits sum.splits)
  from al_selection_snoc[OF sel'] obtain picks \<sigma>' q where
    sel: "al_selection E orc n \<sigma> = (Inr picks, \<sigma>')" and p: "picks' = picks @ q"
    by blast
  from np_index_append[OF vs'[unfolded p]] obtain v1 v2 where
    v: "np_index y picks = Inr v1" "np_index y q = Inr v2" "vs' = v1 @ v2"
    by blast
  have "run_active_learning E X y orc n \<sigma> = (Inr (sum_list v1), \<sigma>')"
    using sel v(1) by (simp add: run_active_learning_def)
  moreover have "sum_list v1 \<le> h'"
    using sum_np_index_nonneg[OF nn v(2)] v(3) h' by simp
  ultimately show "\<exists>h \<sigma>'. run_active_learning E X y orc n \<sigma> = (Inr h, \<sigma>') \<and> h \<le> h'"
    by blast
next
  assume b: "(\<forall>v \<in> set (y_pool \<sigma>). v = 0 \<or> v = 1) \<and>
    first_run E orc learner k n \<sigma> = (Inr (learner', pick_list, printed), \<sigma>'')"
  then have "\<forall>v \<in> set (y_pool \<sigma>). 0 \<le> v" by auto
  then have nn: "\<forall>v \<in> set (y_pool (\<sigma>\<lparr>n_instances := k\<rparr>)). 0 \<le> v"
    by simp
  have run: "print_cycles E orc n learner (initial_list \<sigma>) [] (\<sigma>\<lparr>n_instances := k\<rparr>) =
       (Inr (learner', pick_list, printed), \<sigma>'')"
    using b by (simp add: first_run_def)
  from print_cycles_sorted[OF nn run] show "length printed = n \<and> sorted printed"
    by auto
qed

theorem hits_monotone_in_cycles_witness:
  "(\<exists>h \<sigma>'. run_active_learning demo_library (X_pool demo_ready) (y_pool demo_ready)
      (Oracle_init demo_frame) 1 demo_ready = (Inr h, \<sigma>') \<and> h \<le> 3) \<and>
   first_run demo_library (Oracle_init demo_frame) () 2 2 demo_ready =
     (Inr ((), [0, 0, 1, 0, 1], [1, 2]), demo_ready\<lparr>calls := tl demo_calls\<rparr>) \<and>
   length [1, 2 :: int] = 2 \<and> sorted [1, 2 :: int]"
proof -
  have labels: "\<forall>v \<in> set (y_pool demo_ready). v = 0 \<or> v = 1"
    by (simp add: demo_ready_def)
  have two: "(2::nat) = Suc 1" by simp
  note inst = hits_monotone_in_cycles
      [where y="y_pool demo_ready" and E=demo_library and X="X_pool demo_ready"
         and orc="Oracle_init demo_frame" and \<sigma>=demo_ready and learner="()" and k=2]
  from inst[where n=1 and h'=3] labels demo_hits[unfolded two]
  have a: "\<exists>h \<sigma>'. run_active_learning demo_library (X_pool demo_ready) (y_pool demo_ready)
      (Oracle_init demo_frame) 1 demo_ready = (Inr h, \<sigma>') \<and> h \<le> 3"
    by blast
  from inst[where n=2 and learner'="()" and pick_list="[0, 0, 1, 0, 1]" and printed="[1, 2]"]
    labels demo_first_run
  have b: "length [1, 2 :: int] = 2 \<and> sorted [1, 2 :: int]"
    by blast
  show ?thesis using a b demo_first_run by simp
qed

section \<open>Runs with the same seed\<close>

text \<open>
  C9. Two consecutive runs, each right after seeding the generator with the same seed,
  agree: the trial's selection and the calls it makes (the queried batches among them,
  in order), the trial's hit count, and the baseline's index list and hit count.
\<close>

theorem identical_seed_runs_agree:
  "fst (second_seeded (al_selection E orc n) E s \<sigma>) =
     fst (first_seeded (al_selection E orc n) E s \<sigma>) \<and>
   emitted (al_selection E orc n) (np_random_seed E s (snd (first_seeded (al_selection E orc n) E s \<sigma>))) =
     emitted (al_selection E orc n) (np_random_seed E s \<sigma>) \<and>
   fst (second_seeded (run_active_learning E X y orc n) E s \<sigma>) =
     fst (first_seeded (run_active_learning E X y orc n) E s \<sigma>) \<and>
   fst (second_seeded (random_trial E k) E s \<sigma>) = fst (first_seeded (random_trial E k) E s \<sigma>)"
  using seeded_reruns_agree[of "al_selection E orc n" E s \<sigma>, OF al_selection_log_free]
    seeded_reruns_agree[of "run_active_learning E X y orc n" E s \<sigma>, OF run_active_learning_log_free]
    seeded_reruns_agree[of "random_trial E k" E s \<sigma>, OF random_trial_log_free]
  by simp

theorem identical_seed_runs_agree_witness:
  "fst (first_seeded (al_selection demo_library (Oracle_init demo_frame) 2) demo_library 1 demo_ready) =
     Inr [1, 0, 1, 0, 1] \<and>
   fst (second_seeded (al_selection demo_library (Oracle_init demo_frame) 2) demo_library 1 demo_ready) =
     Inr [1, 0, 1, 0, 1]"
proof -
  have "np_random_seed demo_library 1 demo_ready = demo_ready"
    by (simp add: np_random_seed_def demo_library_def demo_ready_def)
  then have "fst (first_seeded (al_selection demo_library (Oracle_init demo_frame) 2)
      demo_library 1 demo_ready) = Inr [1, 0, 1, 0, 1]"
    by (simp add: first_seeded_def demo_selection)
  then show ?thesis
    using identical_seed_runs_agree[of demo_library "Oracle_init demo_frame" 2 1 demo_ready]
    by simp
qed

section \<open>The oracle ignores its own data frame\<close>

text \<open>
  C10. The data frame given to the constructor of the oracle has no influence on its
  lookups: two oracles built from any two data frames return the same for every index
  list, namely the label column of the global data frame at these indices (or the
  IndexError of that lookup).
\<close>

theorem oracle_ignores_constructor_frame:
  "get_values \<sigma> (Oracle_init d1) idxs = get_values \<sigma> (Oracle_init d2) idxs \<and>
   get_values \<sigma> (Oracle_init d1) idxs = np_index (df_y_values (df \<sigma>)) idxs"
  by (simp add: get_values_def)

theorem oracle_ignores_constructor_frame_witness:
  "get_values demo_ready (Oracle_init []) [1, 2] =
     get_values demo_ready (Oracle_init demo_frame) [1, 2] \<and>
   get_values demo_ready (Oracle_init []) [1, 2] = Inr [1, 1] \<and>
   get_values demo_ready (Oracle_init []) [4] = Inl IndexError"
proof -
  note inst = oracle_ignores_constructor_frame[of demo_ready "[]" "[1, 2]" demo_frame]
  have e: "np_index (df_y_values (df demo_ready)) [1, 2] = Inr [1, 1]"
    by (simp add: np_index_def demo_ready_def demo_frame_def df_y_values_def)
  have "get_values demo_ready (Oracle_init []) [1, 2] =
     get_values demo_ready (Oracle_init demo_frame) [1, 2]"
    using inst by (rule conjunct1)
  moreover have "get_values demo_ready (Oracle_init []) [1, 2] = Inr [1, 1]"
    using inst[THEN conjunct2] e by (rule trans)
  moreover have "get_values demo_ready (Oracle_init []) [4] = Inl IndexError"
    by (simp add: get_values_def np_index_def demo_ready_def demo_frame_def df_y_values_def)
  ultimately show ?thesis by (intro conjI)
qed

end
